theory Spec2Isabelle
  imports Main "HOL-Library.Word" "HOL-Library.Multiset"
begin

section \<open>Strings and values of the host language\<close>

text \<open>
  The module \<^verbatim>\<open>src/i18n/constants.ts\<close> is TypeScript. A string of the language is a
  finite sequence of 16-bit code units, and \<^verbatim>\<open>===\<close> on two strings compares these
  sequences, so a string is modelled as a list of 16-bit words. The native names and the
  flag glyphs of the registry are written out as their UTF-16 code units; a flag is two
  regional-indicator symbols, each a surrogate pair.
\<close>

type_synonym jsstring = "16 word list"

text \<open>A literal made of ASCII characters only: each character is one code unit.\<close>

definition ascii :: "string \<Rightarrow> jsstring" where
  "ascii s = map (\<lambda>c. of_nat (of_char c)) s"

text \<open>
  A value that a property read can produce in this module: \<^verbatim>\<open>undefined\<close>, a
  string, or a built-in object (a function or a prototype object) named by the property
  of \<^verbatim>\<open>Object.prototype\<close> it was read from.
\<close>

datatype jsval = JUndefined | JString jsstring | JBuiltin jsstring

text \<open>\<^verbatim>\<open>ToBoolean\<close>: undefined and the empty string are falsy, every object is truthy.\<close>

fun truthy :: "jsval \<Rightarrow> bool" where
  "truthy JUndefined = False"
| "truthy (JString s) = (s \<noteq> [])"
| "truthy (JBuiltin b) = True"

section \<open>The locale registry\<close>

text \<open>
  \<^verbatim>\<open>interface LocaleInfo { code: Locale; name: string; englishName: string; flag?: string }\<close>
  The optional field is an option.
\<close>

record LocaleInfo =
  code :: jsstring
  name :: jsstring
  englishName :: jsstring
  flag :: "jsstring option"

definition mkLocale :: "jsstring \<Rightarrow> jsstring \<Rightarrow> jsstring \<Rightarrow> jsstring \<Rightarrow> LocaleInfo" where
  "mkLocale c n e f = \<lparr>code = c, name = n, englishName = e, flag = Some f\<rparr>"

text \<open>\<^verbatim>\<open>SUPPORTED_LOCALES\<close>, lines 22 to 33, in the order of the source.\<close>

definition SUPPORTED_LOCALES :: "LocaleInfo list" where
  "SUPPORTED_LOCALES =
    [mkLocale (ascii ''en'') (ascii ''English'') (ascii ''English'')
       [0xD83C, 0xDDFA, 0xD83C, 0xDDF8],
     mkLocale (ascii ''zh-CN'') [0x7B80, 0x4F53, 0x4E2D, 0x6587] (ascii ''Simplified Chinese'')
       [0xD83C, 0xDDE8, 0xD83C, 0xDDF3],
     mkLocale (ascii ''zh-TW'') [0x7E41, 0x9AD4, 0x4E2D, 0x6587] (ascii ''Traditional Chinese'')
       [0xD83C, 0xDDF9, 0xD83C, 0xDDFC],
     mkLocale (ascii ''ja'') [0x65E5, 0x672C, 0x8A9E] (ascii ''Japanese'')
       [0xD83C, 0xDDEF, 0xD83C, 0xDDF5],
     mkLocale (ascii ''ko'') [0xD55C, 0xAD6D, 0xC5B4] (ascii ''Korean'')
       [0xD83C, 0xDDF0, 0xD83C, 0xDDF7],
     mkLocale (ascii ''de'') (ascii ''Deutsch'') (ascii ''German'')
       [0xD83C, 0xDDE9, 0xD83C, 0xDDEA],
     mkLocale (ascii ''fr'') (ascii ''Fran'' @ [0x00E7] @ ascii ''ais'') (ascii ''French'')
       [0xD83C, 0xDDEB, 0xD83C, 0xDDF7],
     mkLocale (ascii ''es'') (ascii ''Espa'' @ [0x00F1] @ ascii ''ol'') (ascii ''Spanish'')
       [0xD83C, 0xDDEA, 0xD83C, 0xDDF8],
     mkLocale (ascii ''ru'') [0x0420, 0x0443, 0x0441, 0x0441, 0x043A, 0x0438, 0x0439]
       (ascii ''Russian'') [0xD83C, 0xDDF7, 0xD83C, 0xDDFA],
     mkLocale (ascii ''pt'') (ascii ''Portugu'' @ [0x00EA] @ ascii ''s'') (ascii ''Portuguese'')
       [0xD83C, 0xDDE7, 0xD83C, 0xDDF7]]"

definition DEFAULT_LOCALE :: jsstring where
  "DEFAULT_LOCALE = ascii ''en''"

text \<open>
  \<^verbatim>\<open>SUPPORTED_LOCALES.find(locale => locale.code === code)\<close>: the first record whose
  code equals the argument, \<^verbatim>\<open>undefined\<close> (here \<open>None\<close>) when there is none.
\<close>

definition getLocaleInfo :: "jsstring \<Rightarrow> LocaleInfo option" where
  "getLocaleInfo c = find (\<lambda>locale. code locale = c) SUPPORTED_LOCALES"

text \<open>
  \<^verbatim>\<open>getLocaleDisplayString(code, includeFlag = true)\<close>. The second argument may be
  left out, which is \<open>None\<close> here and selects the default \<open>True\<close>. The test
  \<^verbatim>\<open>includeFlag && info.flag\<close> is a truthiness test: an absent flag and an empty
  flag both select the format without a flag.
\<close>

definition flagValue :: "LocaleInfo \<Rightarrow> jsval" where
  "flagValue info = (case flag info of None \<Rightarrow> JUndefined | Some f \<Rightarrow> JString f)"

definition getLocaleDisplayString :: "jsstring \<Rightarrow> bool option \<Rightarrow> jsstring" where
  "getLocaleDisplayString c includeFlagArg =
    (let includeFlag = (case includeFlagArg of None \<Rightarrow> True | Some b \<Rightarrow> b) in
     case getLocaleInfo c of
       None \<Rightarrow> c
     | Some info \<Rightarrow>
         if includeFlag \<and> truthy (flagValue info)
         then the (flag info) @ ascii '' '' @ name info @ ascii '' ('' @ englishName info @ ascii '')''
         else name info @ ascii '' ('' @ englishName info @ ascii '')'')"

text \<open>\<^verbatim>\<open>SUPPORTED_LOCALES.some(locale => locale.code === code)\<close>\<close>

definition isValidLocaleCode :: "jsstring \<Rightarrow> bool" where
  "isValidLocaleCode c = list_ex (\<lambda>locale. code locale = c) SUPPORTED_LOCALES"

section \<open>Grouping tables\<close>

text \<open>
  \<^verbatim>\<open>LANGUAGE_FAMILIES\<close> (lines 79 to 84) and \<^verbatim>\<open>LOCALE_REGIONS\<close> (lines 89 to 100) are
  object literals; each is the list of its own properties in the order of the source.
\<close>

definition LANGUAGE_FAMILIES :: "(jsstring \<times> jsstring list) list" where
  "LANGUAGE_FAMILIES =
    [(ascii ''GERMANIC'', [ascii ''en'', ascii ''de'']),
     (ascii ''ROMANCE'', [ascii ''fr'', ascii ''es'', ascii ''pt'']),
     (ascii ''SLAVIC'', [ascii ''ru'']),
     (ascii ''ASIAN'', [ascii ''zh-CN'', ascii ''zh-TW'', ascii ''ja'', ascii ''ko''])]"

definition LOCALE_REGIONS :: "(jsstring \<times> jsstring) list" where
  "LOCALE_REGIONS =
    [(ascii ''en'', ascii ''AMERICA''),
     (ascii ''zh-CN'', ascii ''ASIA''),
     (ascii ''zh-TW'', ascii ''ASIA''),
     (ascii ''ja'', ascii ''ASIA''),
     (ascii ''ko'', ascii ''ASIA''),
     (ascii ''de'', ascii ''EUROPE''),
     (ascii ''fr'', ascii ''EUROPE''),
     (ascii ''es'', ascii ''AMERICA''),
     (ascii ''ru'', ascii ''EUROPE''),
     (ascii ''pt'', ascii ''AMERICA'')]"

text \<open>
  \<^verbatim>\<open>LOCALE_GROUPS\<close> (lines 166 to 172). The first property, \<^verbatim>\<open>ALL\<close>, is computed:
  \<^verbatim>\<open>SUPPORTED_LOCALES.map(l => l.code)\<close>.
\<close>

definition LOCALE_GROUPS :: "(jsstring \<times> jsstring list) list" where
  "LOCALE_GROUPS =
    [(ascii ''ALL'', map (\<lambda>l. code l) SUPPORTED_LOCALES),
     (ascii ''ASIAN'', [ascii ''zh-CN'', ascii ''zh-TW'', ascii ''ja'', ascii ''ko'']),
     (ascii ''EUROPEAN'', [ascii ''de'', ascii ''fr'', ascii ''ru'', ascii ''pt'']),
     (ascii ''ENGLISH_BASED'', [ascii ''en'']),
     (ascii ''SPANISH_PORTUGUESE'', [ascii ''es'', ascii ''pt''])]"

text \<open>
  \<^verbatim>\<open>getLocaleGroup\<close> (lines 177 to 184). \<^verbatim>\<open>Object.entries\<close> lists the own
  properties in creation order (no key of the table is an array index), so the loop
  visits the table in the order of the source. The loop returns at the first bucket
  that \<^verbatim>\<open>includes\<close> the argument; the statement after the loop is the case of the
  empty rest.
\<close>

fun groupLoop :: "(jsstring \<times> jsstring list) list \<Rightarrow> jsstring \<Rightarrow> jsstring list" where
  "groupLoop [] locale = [locale]"
| "groupLoop ((key, locales) # rest) locale =
     (if locale \<in> set locales then locales else groupLoop rest locale)"

definition getLocaleGroup :: "jsstring \<Rightarrow> jsstring list" where
  "getLocaleGroup locale = groupLoop LOCALE_GROUPS locale"

text \<open>
  The specification's wording of the same operation: the first bucket, in declaration
  order, whose members contain the code, and the singleton of the code when there is
  none.
\<close>

definition firstBucketContaining :: "(jsstring \<times> jsstring list) list \<Rightarrow> jsstring \<Rightarrow> jsstring list" where
  "firstBucketContaining table c =
    (case find (\<lambda>bucket. c \<in> set (snd bucket)) table of
       Some bucket \<Rightarrow> snd bucket
     | None \<Rightarrow> [c])"

section \<open>Text direction and fonts\<close>

text \<open>\<^verbatim>\<open>isRTL\<close> (lines 137 to 140): membership in a local array that is empty.\<close>

definition rtlLocales :: "jsstring list" where
  "rtlLocales = []"

definition isRTL :: "jsstring \<Rightarrow> bool" where
  "isRTL locale = (locale \<in> set rtlLocales)"

text \<open>
  \<^verbatim>\<open>getFontFamily\<close> (lines 146 to 161) reads \<^verbatim>\<open>fontMap[locale]\<close> from an object
  literal. A property read on an object first looks at the object's own properties and
  then follows the prototype chain; the prototype of an object literal is
  \<^verbatim>\<open>Object.prototype\<close>, whose properties are those of the language standard
  (ECMA-262, Properties of the Object Prototype Object, with the legacy accessors that
  every engine of the host application provides). All of them hold objects, which are
  truthy.
\<close>

definition quoted :: "string \<Rightarrow> jsstring" where
  "quoted s = [0x0022] @ ascii s @ [0x0022]"

definition sansStack :: jsstring where
  "sansStack = ascii ''ui-sans-serif, system-ui, -apple-system, BlinkMacSystemFont''"

definition cjkStack :: "string \<Rightarrow> string \<Rightarrow> jsstring" where
  "cjkStack f g = ascii ''system-ui, -apple-system, '' @ quoted f @ ascii '', '' @ quoted g
     @ ascii '', sans-serif''"

definition fontMap :: "(jsstring \<times> jsstring) list" where
  "fontMap =
    [(ascii ''en'', sansStack),
     (ascii ''zh-CN'', cjkStack ''Microsoft YaHei'' ''PingFang SC''),
     (ascii ''zh-TW'', cjkStack ''Microsoft JhengHei'' ''PingFang TC''),
     (ascii ''ja'', cjkStack ''Hiragino Sans'' ''Yu Gothic''),
     (ascii ''ko'', cjkStack ''Apple SD Gothic Neo'' ''Noto Sans KR''),
     (ascii ''de'', sansStack),
     (ascii ''fr'', sansStack),
     (ascii ''es'', sansStack),
     (ascii ''ru'', sansStack),
     (ascii ''pt'', sansStack)]"

definition Object_prototype_keys :: "jsstring list" where
  "Object_prototype_keys =
    [ascii ''constructor'', ascii ''hasOwnProperty'', ascii ''isPrototypeOf'',
     ascii ''propertyIsEnumerable'', ascii ''toLocaleString'', ascii ''toString'',
     ascii ''valueOf'', ascii ''__proto__'', ascii ''__defineGetter__'',
     ascii ''__defineSetter__'', ascii ''__lookupGetter__'', ascii ''__lookupSetter__'']"

text \<open>
  The read \<^verbatim>\<open>obj[key]\<close> on an object literal with the own string properties
  \<open>own\<close>: the own property when there is one, else the inherited one, else
  \<^verbatim>\<open>undefined\<close>.
\<close>

definition getProperty :: "(jsstring \<times> jsstring) list \<Rightarrow> jsstring \<Rightarrow> jsval" where
  "getProperty own key =
    (case map_of own key of
       Some v \<Rightarrow> JString v
     | None \<Rightarrow> if key \<in> set Object_prototype_keys then JBuiltin key else JUndefined)"

text \<open>\<^verbatim>\<open>return fontMap[locale] || fontMap['en']\<close>\<close>

definition getFontFamily :: "jsstring \<Rightarrow> jsval" where
  "getFontFamily locale =
    (let v = getProperty fontMap locale in
     if truthy v then v else getProperty fontMap (ascii ''en''))"

section \<open>The dropdown listing\<close>

text \<open>
  \<^verbatim>\<open>getLocalesForDropdown\<close> (lines 62 to 67) copies the registry array with a spread
  and sorts the copy in place. Arrays are mutable and shared by reference, so the arrays
  live in a store, a list of arrays addressed by position; the registry array is created
  at module load and has address 0. The records are never written by this module and are
  kept as values.
\<close>

type_synonym store = "LocaleInfo list list"

definition SUPPORTED_LOCALES_ref :: nat where
  "SUPPORTED_LOCALES_ref = 0"

definition initial_store :: store where
  "initial_store = [SUPPORTED_LOCALES]"

text \<open>
  \<^verbatim>\<open>[...arr]\<close>: a fresh array with the elements of \<open>arr\<close>, at the next free
  address. The address \<open>a\<close> must be allocated; the registry's is, in
  \<open>initial_store\<close> and in every store reached from it.
\<close>

definition array_spread :: "store \<Rightarrow> nat \<Rightarrow> store \<times> nat" where
  "array_spread h a = (h @ [h ! a], length h)"

text \<open>
  \<^verbatim>\<open>String.prototype.localeCompare\<close> belongs to the host: it returns a negative
  number, zero or a positive number, and which strings compare how depends on the host's
  collation data. It is a parameter of the model. The language standard requires it to be
  a consistent comparator on all strings, which is the predicate below (ECMA-262,
  Array.prototype.sort).
\<close>

type_synonym collation = "jsstring \<Rightarrow> jsstring \<Rightarrow> int"

definition consistent_comparator :: "('a \<Rightarrow> 'a \<Rightarrow> int) \<Rightarrow> bool" where
  "consistent_comparator cmp \<longleftrightarrow>
     (\<forall>a. cmp a a = 0) \<and>
     (\<forall>a b. cmp a b = 0 \<longrightarrow> cmp b a = 0) \<and>
     (\<forall>a b. cmp a b < 0 \<longleftrightarrow> cmp b a > 0) \<and>
     (\<forall>a b c. cmp a b = 0 \<and> cmp b c = 0 \<longrightarrow> cmp a c = 0) \<and>
     (\<forall>a b c. cmp a b < 0 \<and> cmp b c < 0 \<longrightarrow> cmp a c < 0) \<and>
     (\<forall>a b c. cmp a b > 0 \<and> cmp b c > 0 \<longrightarrow> cmp a c > 0)"

text \<open>
  \<^verbatim>\<open>Array.prototype.sort\<close> with a comparator is a stable sort: with a consistent
  comparator its result is the one stable ordering of the elements, whatever algorithm
  the engine runs. The model is a stable insertion sort: an element goes before the
  first element of the sorted rest that it does not come after.
\<close>

fun insertSorted :: "('a \<Rightarrow> 'a \<Rightarrow> int) \<Rightarrow> 'a \<Rightarrow> 'a list \<Rightarrow> 'a list" where
  "insertSorted cmp x [] = [x]"
| "insertSorted cmp x (y # ys) =
     (if cmp x y \<le> 0 then x # y # ys else y # insertSorted cmp x ys)"

fun stableSort :: "('a \<Rightarrow> 'a \<Rightarrow> int) \<Rightarrow> 'a list \<Rightarrow> 'a list" where
  "stableSort cmp [] = []"
| "stableSort cmp (x # xs) = insertSorted cmp x (stableSort cmp xs)"

text \<open>\<^verbatim>\<open>arr.sort(cmp)\<close> writes the sorted elements into \<open>arr\<close> and returns \<open>arr\<close>.\<close>

definition array_sort :: "(LocaleInfo \<Rightarrow> LocaleInfo \<Rightarrow> int) \<Rightarrow> store \<Rightarrow> nat \<Rightarrow> store \<times> nat" where
  "array_sort cmp h a = (h[a := stableSort cmp (h ! a)], a)"

definition getLocalesForDropdown :: "collation \<Rightarrow> store \<Rightarrow> store \<times> nat" where
  "getLocalesForDropdown localeCompare h =
    (case array_spread h SUPPORTED_LOCALES_ref of
       (h1, copy) \<Rightarrow>
         array_sort (\<lambda>a b. localeCompare (englishName a) (englishName b)) h1 copy)"

text \<open>The store after \<open>n\<close> calls in a row.\<close>

fun callDropdown :: "collation \<Rightarrow> nat \<Rightarrow> store \<Rightarrow> store" where
  "callDropdown localeCompare 0 h = h"
| "callDropdown localeCompare (Suc n) h =
     callDropdown localeCompare n (fst (getLocalesForDropdown localeCompare h))"

text \<open>
  One comparator that is consistent, used to run the listing on a concrete input: the
  comparison of the code units, position by position. On the ten English names of the
  registry every pair differs first at two letters of the same case.
\<close>

fun codeUnitCompare :: collation where
  "codeUnitCompare [] [] = 0"
| "codeUnitCompare [] (y # ys) = - 1"
| "codeUnitCompare (x # xs) [] = 1"
| "codeUnitCompare (x # xs) (y # ys) =
     (if x < y then - 1 else if y < x then 1 else codeUnitCompare xs ys)"

section \<open>Basic facts\<close>

lemma of_char_lt_65536: "(of_char c :: nat) < 65536"
proof -
  have "(of_char c :: nat) mod 256 = of_char c" by simp
  then have "(of_char c :: nat) < 256"
    by (metis mod_less_divisor zero_less_numeral)
  then show ?thesis by linarith
qed

lemma ascii_unit_inj: "(of_nat (of_char x) :: 16 word) = of_nat (of_char y) \<longleftrightarrow> x = y"
proof
  assume "(of_nat (of_char x) :: 16 word) = of_nat (of_char y)"
  then have "unat (of_nat (of_char x :: nat) :: 16 word) = unat (of_nat (of_char y :: nat) :: 16 word)"
    by simp
  then have "(of_char x :: nat) = of_char y"
    using of_char_lt_65536 [of x] of_char_lt_65536 [of y] by (simp add: unat_of_nat)
  then show "x = y" by simp
qed simp

lemma ascii_inj: "ascii s = ascii t \<longleftrightarrow> s = t"
proof -
  have "inj (\<lambda>c::char. (of_nat (of_char c) :: 16 word))"
    by (rule injI) (simp add: ascii_unit_inj)
  then show ?thesis
    unfolding ascii_def by (auto simp: inj_map_eq_map)
qed

lemma ascii_Nil: "ascii [] = []"
  by (simp add: ascii_def)

lemma ascii_Cons: "ascii (c # cs) = of_nat (of_char c) # ascii cs"
  by (simp add: ascii_def)

lemma codes_SUPPORTED_LOCALES:
  "map code SUPPORTED_LOCALES =
    [ascii ''en'', ascii ''zh-CN'', ascii ''zh-TW'', ascii ''ja'', ascii ''ko'',
     ascii ''de'', ascii ''fr'', ascii ''es'', ascii ''ru'', ascii ''pt'']"
  by (simp add: SUPPORTED_LOCALES_def mkLocale_def)

lemma getLocaleInfo_None_iff: "getLocaleInfo c = None \<longleftrightarrow> c \<notin> set (map code SUPPORTED_LOCALES)"
  unfolding getLocaleInfo_def by (auto simp: find_None_iff)

lemma getLocaleInfo_Some:
  "getLocaleInfo c = Some info \<Longrightarrow> code info = c \<and> info \<in> set SUPPORTED_LOCALES"
  unfolding getLocaleInfo_def by (auto simp: find_Some_iff)

lemma isValidLocaleCode_iff: "isValidLocaleCode c \<longleftrightarrow> c \<in> set (map code SUPPORTED_LOCALES)"
  unfolding isValidLocaleCode_def by (auto simp: list_ex_iff)

section \<open>Unknown codes\<close>

lemma flags_present:
  "info \<in> set SUPPORTED_LOCALES \<Longrightarrow> \<exists>f. flag info = Some f \<and> f \<noteq> []"
  by (auto simp: SUPPORTED_LOCALES_def mkLocale_def)

text \<open>
  C3: for every string that is the code of no record of the registry,
  \<^verbatim>\<open>getLocaleInfo\<close> returns \<^verbatim>\<open>undefined\<close>, \<^verbatim>\<open>getLocaleDisplayString\<close> returns its
  argument unchanged, with or without the second argument, and \<^verbatim>\<open>isValidLocaleCode\<close>
  returns false. None of the three has a \<^verbatim>\<open>throw\<close> or calls anything that can raise
  on a string: each is a total function here, with a value for every argument.
\<close>

theorem unknown_code_fallbacks:
  "c \<notin> set (map code SUPPORTED_LOCALES) \<Longrightarrow>
     getLocaleInfo c = None \<and> getLocaleDisplayString c includeFlagArg = c \<and> \<not> isValidLocaleCode c"
  by (simp add: getLocaleInfo_None_iff [symmetric] getLocaleDisplayString_def isValidLocaleCode_iff
      del: set_map)

text \<open>The three fallbacks at \<^verbatim>\<open>'xx-unknown'\<close>.\<close>

theorem unknown_code_fallbacks_witness:
  "ascii ''xx-unknown'' \<notin> set (map code SUPPORTED_LOCALES) \<and>
   getLocaleInfo (ascii ''xx-unknown'') = None \<and>
   getLocaleDisplayString (ascii ''xx-unknown'') None = ascii ''xx-unknown'' \<and>
   getLocaleDisplayString (ascii ''xx-unknown'') (Some False) = ascii ''xx-unknown'' \<and>
   \<not> isValidLocaleCode (ascii ''xx-unknown'')"
proof -
  have h: "ascii ''xx-unknown'' \<notin> set (map code SUPPORTED_LOCALES)"
    by (simp add: codes_SUPPORTED_LOCALES ascii_inj del: set_map)
  show ?thesis
    using h unknown_code_fallbacks [OF h, of None] unknown_code_fallbacks [OF h, of "Some False"]
    by blast
qed

section \<open>The contents of the registry\<close>

text \<open>
  C5: the registry holds exactly the ten codes \<^verbatim>\<open>en, zh-CN, zh-TW, ja, ko, de, fr, es, ru, pt\<close>
  in this order, with the native names and flag glyphs of the source (as UTF-16 code
  units), no code occurs twice, and for every code of the registry \<^verbatim>\<open>getLocaleInfo\<close>
  returns a record of the registry whose code is the argument.
\<close>

theorem registry_contents:
  "map code SUPPORTED_LOCALES =
     [ascii ''en'', ascii ''zh-CN'', ascii ''zh-TW'', ascii ''ja'', ascii ''ko'',
      ascii ''de'', ascii ''fr'', ascii ''es'', ascii ''ru'', ascii ''pt''] \<and>
   length SUPPORTED_LOCALES = 10 \<and>
   distinct (map code SUPPORTED_LOCALES) \<and>
   map name SUPPORTED_LOCALES =
     [ascii ''English'',
      [0x7B80, 0x4F53, 0x4E2D, 0x6587],
      [0x7E41, 0x9AD4, 0x4E2D, 0x6587],
      [0x65E5, 0x672C, 0x8A9E],
      [0xD55C, 0xAD6D, 0xC5B4],
      ascii ''Deutsch'',
      ascii ''Fran'' @ [0x00E7] @ ascii ''ais'',
      ascii ''Espa'' @ [0x00F1] @ ascii ''ol'',
      [0x0420, 0x0443, 0x0441, 0x0441, 0x043A, 0x0438, 0x0439],
      ascii ''Portugu'' @ [0x00EA] @ ascii ''s''] \<and>
   map flag SUPPORTED_LOCALES =
     [Some [0xD83C, 0xDDFA, 0xD83C, 0xDDF8],
      Some [0xD83C, 0xDDE8, 0xD83C, 0xDDF3],
      Some [0xD83C, 0xDDF9, 0xD83C, 0xDDFC],
      Some [0xD83C, 0xDDEF, 0xD83C, 0xDDF5],
      Some [0xD83C, 0xDDF0, 0xD83C, 0xDDF7],
      Some [0xD83C, 0xDDE9, 0xD83C, 0xDDEA],
      Some [0xD83C, 0xDDEB, 0xD83C, 0xDDF7],
      Some [0xD83C, 0xDDEA, 0xD83C, 0xDDF8],
      Some [0xD83C, 0xDDF7, 0xD83C, 0xDDFA],
      Some [0xD83C, 0xDDE7, 0xD83C, 0xDDF7]] \<and>
   (\<forall>c\<in>set (map code SUPPORTED_LOCALES).
      \<exists>info. getLocaleInfo c = Some info \<and> code info = c \<and> info \<in> set SUPPORTED_LOCALES)"
proof -
  have codes: "map code SUPPORTED_LOCALES =
     [ascii ''en'', ascii ''zh-CN'', ascii ''zh-TW'', ascii ''ja'', ascii ''ko'',
      ascii ''de'', ascii ''fr'', ascii ''es'', ascii ''ru'', ascii ''pt'']"
    by (rule codes_SUPPORTED_LOCALES)
  have len: "length SUPPORTED_LOCALES = 10"
    by (simp add: SUPPORTED_LOCALES_def)
  have dist: "distinct (map code SUPPORTED_LOCALES)"
    unfolding codes by (simp add: ascii_inj)
  have names: "map name SUPPORTED_LOCALES =
     [ascii ''English'',
      [0x7B80, 0x4F53, 0x4E2D, 0x6587],
      [0x7E41, 0x9AD4, 0x4E2D, 0x6587],
      [0x65E5, 0x672C, 0x8A9E],
      [0xD55C, 0xAD6D, 0xC5B4],
      ascii ''Deutsch'',
      ascii ''Fran'' @ [0x00E7] @ ascii ''ais'',
      ascii ''Espa'' @ [0x00F1] @ ascii ''ol'',
      [0x0420, 0x0443, 0x0441, 0x0441, 0x043A, 0x0438, 0x0439],
      ascii ''Portugu'' @ [0x00EA] @ ascii ''s'']"
    by (simp add: SUPPORTED_LOCALES_def mkLocale_def)
  have flags: "map flag SUPPORTED_LOCALES =
     [Some [0xD83C, 0xDDFA, 0xD83C, 0xDDF8],
      Some [0xD83C, 0xDDE8, 0xD83C, 0xDDF3],
      Some [0xD83C, 0xDDF9, 0xD83C, 0xDDFC],
      Some [0xD83C, 0xDDEF, 0xD83C, 0xDDF5],
      Some [0xD83C, 0xDDF0, 0xD83C, 0xDDF7],
      Some [0xD83C, 0xDDE9, 0xD83C, 0xDDEA],
      Some [0xD83C, 0xDDEB, 0xD83C, 0xDDF7],
      Some [0xD83C, 0xDDEA, 0xD83C, 0xDDF8],
      Some [0xD83C, 0xDDF7, 0xD83C, 0xDDFA],
      Some [0xD83C, 0xDDE7, 0xD83C, 0xDDF7]]"
    by (simp add: SUPPORTED_LOCALES_def mkLocale_def)
  have lookup: "\<forall>c\<in>set (map code SUPPORTED_LOCALES).
      \<exists>info. getLocaleInfo c = Some info \<and> code info = c \<and> info \<in> set SUPPORTED_LOCALES"
  proof
    fix c assume "c \<in> set (map code SUPPORTED_LOCALES)"
    then have "getLocaleInfo c \<noteq> None" by (simp add: getLocaleInfo_None_iff del: set_map)
    then obtain info where "getLocaleInfo c = Some info" by blast
    with getLocaleInfo_Some [OF this]
    show "\<exists>info. getLocaleInfo c = Some info \<and> code info = c \<and> info \<in> set SUPPORTED_LOCALES"
      by blast
  qed
  show ?thesis using codes len dist names flags lookup by blast
qed

text \<open>The lookup of \<^verbatim>\<open>'ja'\<close>, a code of the registry.\<close>

theorem registry_contents_witness:
  "ascii ''ja'' \<in> set (map code SUPPORTED_LOCALES) \<and>
   (\<exists>info. getLocaleInfo (ascii ''ja'') = Some info \<and> code info = ascii ''ja'')"
proof -
  have h: "ascii ''ja'' \<in> set (map code SUPPORTED_LOCALES)"
    by (simp add: codes_SUPPORTED_LOCALES del: set_map)
  show ?thesis using h registry_contents by blast
qed

section \<open>Display strings\<close>

text \<open>
  C7: for a code of the registry, \<^verbatim>\<open>getLocaleDisplayString\<close> gives
  \<^verbatim>\<open>"{flag} {name} ({englishName})"\<close> when the flag is asked for (the second argument
  is true or left out) and the record has one, and \<^verbatim>\<open>"{name} ({englishName})"\<close>
  otherwise. For \<^verbatim>\<open>'ja'\<close> these are the flag of Japan, a space, the three characters
  of the native name and \<^verbatim>\<open>" (Japanese)"\<close>, and the same without the flag and the
  space.
\<close>

theorem display_string_format:
  "(getLocaleInfo c = Some info \<longrightarrow>
      getLocaleDisplayString c includeFlagArg =
        (if includeFlagArg \<noteq> Some False \<and> flag info \<noteq> None
         then the (flag info) @ ascii '' '' @ name info @ ascii '' ('' @ englishName info @ ascii '')''
         else name info @ ascii '' ('' @ englishName info @ ascii '')'')) \<and>
   getLocaleDisplayString (ascii ''ja'') (Some True) =
     [0xD83C, 0xDDEF, 0xD83C, 0xDDF5] @ ascii '' '' @ [0x65E5, 0x672C, 0x8A9E] @ ascii '' (Japanese)'' \<and>
   getLocaleDisplayString (ascii ''ja'') (Some False) =
     [0x65E5, 0x672C, 0x8A9E] @ ascii '' (Japanese)''"
proof -
  have general: "getLocaleInfo c = Some info \<longrightarrow>
      getLocaleDisplayString c includeFlagArg =
        (if includeFlagArg \<noteq> Some False \<and> flag info \<noteq> None
         then the (flag info) @ ascii '' '' @ name info @ ascii '' ('' @ englishName info @ ascii '')''
         else name info @ ascii '' ('' @ englishName info @ ascii '')'')"
  proof
    assume a: "getLocaleInfo c = Some info"
    then have "info \<in> set SUPPORTED_LOCALES" by (simp add: getLocaleInfo_Some)
    then obtain f where f: "flag info = Some f" "f \<noteq> []" using flags_present by blast
    show "getLocaleDisplayString c includeFlagArg =
        (if includeFlagArg \<noteq> Some False \<and> flag info \<noteq> None
         then the (flag info) @ ascii '' '' @ name info @ ascii '' ('' @ englishName info @ ascii '')''
         else name info @ ascii '' ('' @ englishName info @ ascii '')'')"
      using a f by (cases includeFlagArg) (simp_all add: getLocaleDisplayString_def flagValue_def)
  qed
  have info: "getLocaleInfo (ascii ''ja'') =
      Some (mkLocale (ascii ''ja'') [0x65E5, 0x672C, 0x8A9E] (ascii ''Japanese'')
        [0xD83C, 0xDDEF, 0xD83C, 0xDDF5])"
    by (simp add: getLocaleInfo_def SUPPORTED_LOCALES_def mkLocale_def ascii_inj)
  have with_flag: "getLocaleDisplayString (ascii ''ja'') (Some True) =
     [0xD83C, 0xDDEF, 0xD83C, 0xDDF5] @ ascii '' '' @ [0x65E5, 0x672C, 0x8A9E] @ ascii '' (Japanese)''"
    unfolding getLocaleDisplayString_def info by (simp add: flagValue_def mkLocale_def ascii_def)
  have without_flag: "getLocaleDisplayString (ascii ''ja'') (Some False) =
     [0x65E5, 0x672C, 0x8A9E] @ ascii '' (Japanese)''"
    unfolding getLocaleDisplayString_def info by (simp add: flagValue_def mkLocale_def ascii_def)
  show ?thesis using general with_flag without_flag by blast
qed

text \<open>The two formats at \<^verbatim>\<open>'ko'\<close>, whose record is found by the lookup.\<close>

theorem display_string_format_witness:
  "getLocaleInfo (ascii ''ko'') =
     Some (mkLocale (ascii ''ko'') [0xD55C, 0xAD6D, 0xC5B4] (ascii ''Korean'')
       [0xD83C, 0xDDF0, 0xD83C, 0xDDF7]) \<and>
   getLocaleDisplayString (ascii ''ko'') None =
     [0xD83C, 0xDDF0, 0xD83C, 0xDDF7] @ ascii '' '' @ [0xD55C, 0xAD6D, 0xC5B4] @ ascii '' (Korean)'' \<and>
   getLocaleDisplayString (ascii ''ko'') (Some False) =
     [0xD55C, 0xAD6D, 0xC5B4] @ ascii '' (Korean)''"
proof -
  have info: "getLocaleInfo (ascii ''ko'') =
     Some (mkLocale (ascii ''ko'') [0xD55C, 0xAD6D, 0xC5B4] (ascii ''Korean'')
       [0xD83C, 0xDDF0, 0xD83C, 0xDDF7])"
    by (simp add: getLocaleInfo_def SUPPORTED_LOCALES_def mkLocale_def ascii_inj)
  show ?thesis
    using info
      display_string_format [of "ascii ''ko''" "mkLocale (ascii ''ko'') [0xD55C, 0xAD6D, 0xC5B4]
        (ascii ''Korean'') [0xD83C, 0xDDF0, 0xD83C, 0xDDF7]" None]
      display_string_format [of "ascii ''ko''" "mkLocale (ascii ''ko'') [0xD55C, 0xAD6D, 0xC5B4]
        (ascii ''Korean'') [0xD83C, 0xDDF0, 0xD83C, 0xDDF7]" "Some False"]
    by (simp add: mkLocale_def ascii_Cons ascii_Nil)
qed

section \<open>Referential integrity of the grouping tables\<close>

text \<open>
  C8: every code that occurs in a bucket of \<^verbatim>\<open>LANGUAGE_FAMILIES\<close>, as a key of
  \<^verbatim>\<open>LOCALE_REGIONS\<close> or in a bucket of \<^verbatim>\<open>LOCALE_GROUPS\<close> is the code of a record
  of the registry.
\<close>

theorem grouping_tables_reference_registry:
  "\<forall>c\<in>set (concat (map snd LANGUAGE_FAMILIES)) \<union> set (map fst LOCALE_REGIONS)
        \<union> set (concat (map snd LOCALE_GROUPS)).
     c \<in> set (map code SUPPORTED_LOCALES) \<and> isValidLocaleCode c \<and>
     (\<exists>info. getLocaleInfo c = Some info \<and> code info = c)"
proof
  fix c
  assume "c \<in> set (concat (map snd LANGUAGE_FAMILIES)) \<union> set (map fst LOCALE_REGIONS)
        \<union> set (concat (map snd LOCALE_GROUPS))"
  then have m: "c \<in> set (map code SUPPORTED_LOCALES)"
    unfolding LANGUAGE_FAMILIES_def LOCALE_REGIONS_def LOCALE_GROUPS_def codes_SUPPORTED_LOCALES
    by auto
  then have "getLocaleInfo c \<noteq> None" by (simp add: getLocaleInfo_None_iff del: set_map)
  then obtain info where "getLocaleInfo c = Some info" by blast
  with getLocaleInfo_Some [OF this] m
  show "c \<in> set (map code SUPPORTED_LOCALES) \<and> isValidLocaleCode c \<and>
     (\<exists>info. getLocaleInfo c = Some info \<and> code info = c)"
    by (auto simp: isValidLocaleCode_iff simp del: set_map)
qed

text \<open>The code \<^verbatim>\<open>'pt'\<close> occurs in all three tables.\<close>

theorem grouping_tables_reference_registry_witness:
  "ascii ''pt'' \<in> set (concat (map snd LANGUAGE_FAMILIES)) \<and>
   ascii ''pt'' \<in> set (map fst LOCALE_REGIONS) \<and>
   ascii ''pt'' \<in> set (concat (map snd LOCALE_GROUPS)) \<and>
   ascii ''pt'' \<in> set (map code SUPPORTED_LOCALES) \<and> isValidLocaleCode (ascii ''pt'')"
proof -
  have h: "ascii ''pt'' \<in> set (concat (map snd LANGUAGE_FAMILIES))"
    "ascii ''pt'' \<in> set (map fst LOCALE_REGIONS)"
    "ascii ''pt'' \<in> set (concat (map snd LOCALE_GROUPS))"
    by (simp_all add: LANGUAGE_FAMILIES_def LOCALE_REGIONS_def LOCALE_GROUPS_def
        codes_SUPPORTED_LOCALES)
  show ?thesis using h grouping_tables_reference_registry by blast
qed

section \<open>The group of a locale\<close>

lemma groupLoop_contains: "c \<in> set (groupLoop table c)"
  by (induction table c rule: groupLoop.induct) auto

lemma groupLoop_first: "groupLoop table c = firstBucketContaining table c"
  unfolding firstBucketContaining_def
  by (induction table c rule: groupLoop.induct) auto

text \<open>
  The loop in terms of positions: either it returns the bucket at some position \<open>i\<close>
  that contains the code while no bucket before \<open>i\<close> does, or no bucket contains the
  code and it returns the singleton.
\<close>

lemma groupLoop_index:
  "(\<exists>i<length table. c \<in> set (snd (table ! i)) \<and> (\<forall>j<i. c \<notin> set (snd (table ! j)))
        \<and> groupLoop table c = snd (table ! i))
   \<or> ((\<forall>j<length table. c \<notin> set (snd (table ! j))) \<and> groupLoop table c = [c])"
proof (induction table c rule: groupLoop.induct)
  case (1 c)
  then show ?case by simp
next
  case (2 key locales rest c)
  show ?case
  proof (cases "c \<in> set locales")
    case True
    then have "0 < length ((key, locales) # rest) \<and> c \<in> set (snd (((key, locales) # rest) ! 0))
      \<and> (\<forall>j<0. c \<notin> set (snd (((key, locales) # rest) ! j)))
      \<and> groupLoop ((key, locales) # rest) c = snd (((key, locales) # rest) ! 0)"
      by simp
    then show ?thesis by blast
  next
    case False
    from 2 [OF False] show ?thesis
    proof
      assume "\<exists>i<length rest. c \<in> set (snd (rest ! i)) \<and> (\<forall>j<i. c \<notin> set (snd (rest ! j)))
        \<and> groupLoop rest c = snd (rest ! i)"
      then obtain i where i: "i < length rest" "c \<in> set (snd (rest ! i))"
        "\<forall>j<i. c \<notin> set (snd (rest ! j))" "groupLoop rest c = snd (rest ! i)"
        by blast
      have "\<forall>j<Suc i. c \<notin> set (snd (((key, locales) # rest) ! j))"
        using False i(3) by (auto simp: less_Suc_eq_0_disj)
      with i False have "Suc i < length ((key, locales) # rest)
        \<and> c \<in> set (snd (((key, locales) # rest) ! Suc i))
        \<and> (\<forall>j<Suc i. c \<notin> set (snd (((key, locales) # rest) ! j)))
        \<and> groupLoop ((key, locales) # rest) c = snd (((key, locales) # rest) ! Suc i)"
        by simp
      then show ?thesis by blast
    next
      assume a: "(\<forall>j<length rest. c \<notin> set (snd (rest ! j))) \<and> groupLoop rest c = [c]"
      then have "\<forall>j<length ((key, locales) # rest). c \<notin> set (snd (((key, locales) # rest) ! j))"
        using False by (auto simp: less_Suc_eq_0_disj)
      with a False show ?thesis by simp
    qed
  qed
qed

text \<open>
  The bucket \<^verbatim>\<open>ALL\<close> is declared first and holds every code of the registry, so it is
  the answer for every supported code: the four buckets after it are never returned.
\<close>

lemma getLocaleGroup_supported:
  "c \<in> set (map code SUPPORTED_LOCALES) \<Longrightarrow> getLocaleGroup c = map code SUPPORTED_LOCALES"
  by (simp add: getLocaleGroup_def LOCALE_GROUPS_def)

lemma getLocaleGroup_unsupported:
  "c \<notin> set (map code SUPPORTED_LOCALES) \<Longrightarrow> getLocaleGroup c = [c]"
  by (auto simp add: getLocaleGroup_def LOCALE_GROUPS_def codes_SUPPORTED_LOCALES)

lemma getLocaleGroup_range:
  "getLocaleGroup c = snd (LOCALE_GROUPS ! 0) \<or> getLocaleGroup c = [c]"
proof (cases "c \<in> set (map code SUPPORTED_LOCALES)")
  case True
  then show ?thesis by (simp add: getLocaleGroup_supported LOCALE_GROUPS_def del: set_map)
next
  case False
  then show ?thesis by (simp add: getLocaleGroup_unsupported del: set_map)
qed

text \<open>
  C1, evaluated on the code. The claim is that \<^verbatim>\<open>getLocaleGroup('ja')\<close> is the Asian
  bucket \<^verbatim>\<open>['zh-CN', 'zh-TW', 'ja', 'ko']\<close> and that \<^verbatim>\<open>getLocaleGroup('xx-unknown')\<close>
  is the singleton of its argument. The second part holds. For \<^verbatim>\<open>'ja'\<close> the loop
  stops at the bucket \<^verbatim>\<open>ALL\<close>, which is declared before \<^verbatim>\<open>ASIAN\<close> and contains
  \<^verbatim>\<open>'ja'\<close>: the result is the list of all ten codes, not the Asian bucket.
\<close>

theorem getLocaleGroup_ja_is_ALL:
  "getLocaleGroup (ascii ''ja'') =
     [ascii ''en'', ascii ''zh-CN'', ascii ''zh-TW'', ascii ''ja'', ascii ''ko'',
      ascii ''de'', ascii ''fr'', ascii ''es'', ascii ''ru'', ascii ''pt''] \<and>
   getLocaleGroup (ascii ''ja'') \<noteq> [ascii ''zh-CN'', ascii ''zh-TW'', ascii ''ja'', ascii ''ko''] \<and>
   fst (LOCALE_GROUPS ! 1) = ascii ''ASIAN'' \<and>
   getLocaleGroup (ascii ''ja'') \<noteq> snd (LOCALE_GROUPS ! 1) \<and>
   getLocaleGroup (ascii ''xx-unknown'') = [ascii ''xx-unknown'']"
  by (simp add: getLocaleGroup_def LOCALE_GROUPS_def codes_SUPPORTED_LOCALES ascii_inj)

text \<open>
  C2: for every code, \<^verbatim>\<open>getLocaleGroup\<close> returns the first bucket, in the declaration
  order of the grouping table, whose members contain the code, and the singleton of the
  code when no bucket contains it. It is stated twice: as equality with the
  specification's wording, and by positions, which says that a code in several buckets
  gets the one declared first.
\<close>

theorem getLocaleGroup_first_bucket:
  "getLocaleGroup c = firstBucketContaining LOCALE_GROUPS c \<and>
   ((\<exists>i<length LOCALE_GROUPS. c \<in> set (snd (LOCALE_GROUPS ! i))
        \<and> (\<forall>j<i. c \<notin> set (snd (LOCALE_GROUPS ! j)))
        \<and> getLocaleGroup c = snd (LOCALE_GROUPS ! i))
    \<or> ((\<forall>j<length LOCALE_GROUPS. c \<notin> set (snd (LOCALE_GROUPS ! j))) \<and> getLocaleGroup c = [c]))"
  unfolding getLocaleGroup_def
  using groupLoop_first [of LOCALE_GROUPS c] groupLoop_index [of LOCALE_GROUPS c] by blast

text \<open>
  The code \<^verbatim>\<open>'pt'\<close> is in three buckets (positions 0, 2 and 4) and gets the one at
  position 0; \<^verbatim>\<open>'xx-unknown'\<close> is in none.
\<close>

theorem getLocaleGroup_first_bucket_witness:
  "ascii ''pt'' \<in> set (snd (LOCALE_GROUPS ! 0)) \<and>
   ascii ''pt'' \<in> set (snd (LOCALE_GROUPS ! 2)) \<and>
   ascii ''pt'' \<in> set (snd (LOCALE_GROUPS ! 4)) \<and>
   getLocaleGroup (ascii ''pt'') = firstBucketContaining LOCALE_GROUPS (ascii ''pt'') \<and>
   firstBucketContaining LOCALE_GROUPS (ascii ''pt'') = snd (LOCALE_GROUPS ! 0) \<and>
   \<not> list_ex (\<lambda>bucket. ascii ''xx-unknown'' \<in> set (snd bucket)) LOCALE_GROUPS \<and>
   getLocaleGroup (ascii ''xx-unknown'') = [ascii ''xx-unknown'']"
proof -
  have pt: "getLocaleGroup (ascii ''pt'') = firstBucketContaining LOCALE_GROUPS (ascii ''pt'')"
    using getLocaleGroup_first_bucket [of "ascii ''pt''"] by blast
  have members: "ascii ''pt'' \<in> set (snd (LOCALE_GROUPS ! 0))"
    "ascii ''pt'' \<in> set (snd (LOCALE_GROUPS ! 2))"
    "ascii ''pt'' \<in> set (snd (LOCALE_GROUPS ! 4))"
    by (simp_all add: LOCALE_GROUPS_def codes_SUPPORTED_LOCALES)
  have first: "firstBucketContaining LOCALE_GROUPS (ascii ''pt'') = snd (LOCALE_GROUPS ! 0)"
    by (simp add: firstBucketContaining_def LOCALE_GROUPS_def codes_SUPPORTED_LOCALES)
  have none: "\<not> list_ex (\<lambda>bucket. ascii ''xx-unknown'' \<in> set (snd bucket)) LOCALE_GROUPS"
    by (simp add: LOCALE_GROUPS_def codes_SUPPORTED_LOCALES ascii_inj)
  then have "\<forall>j<length LOCALE_GROUPS. ascii ''xx-unknown'' \<notin> set (snd (LOCALE_GROUPS ! j))"
    unfolding list_ex_iff by (meson nth_mem)
  then have unknown: "getLocaleGroup (ascii ''xx-unknown'') = [ascii ''xx-unknown'']"
    using getLocaleGroup_first_bucket [of "ascii ''xx-unknown''"] by blast
  show ?thesis using pt members first none unknown by blast
qed

text \<open>
  C10: for every code, supported or not, the list that \<^verbatim>\<open>getLocaleGroup\<close> returns is
  not empty and contains the code.
\<close>

theorem getLocaleGroup_contains_input:
  "getLocaleGroup c \<noteq> [] \<and> c \<in> set (getLocaleGroup c)"
  using groupLoop_contains [of c LOCALE_GROUPS] by (auto simp: getLocaleGroup_def)

section \<open>Text direction\<close>

text \<open>
  C9: \<^verbatim>\<open>isRTL\<close> is false for every supported code and, the right-to-left array being
  empty, for every argument.
\<close>

theorem isRTL_always_false:
  "\<not> isRTL c \<and> list_all (\<lambda>l. \<not> isRTL (code l)) SUPPORTED_LOCALES"
  by (simp add: isRTL_def rtlLocales_def list_all_iff)

section \<open>The dropdown listing is a sorted copy\<close>

lemma mset_insertSorted: "mset (insertSorted cmp x ys) = add_mset x (mset ys)"
  by (induction ys) auto

lemma mset_stableSort: "mset (stableSort cmp xs) = mset xs"
  by (induction xs) (auto simp: mset_insertSorted)

lemma set_insertSorted: "set (insertSorted cmp x ys) = insert x (set ys)"
  using mset_insertSorted [of cmp x ys, THEN arg_cong, of set_mset] by simp

lemma consistent_total:
  assumes "consistent_comparator cmp" and "\<not> cmp a b \<le> 0"
  shows "cmp b a \<le> 0"
proof -
  from assms(2) have "cmp a b > 0" by simp
  with assms(1) have "cmp b a < 0" unfolding consistent_comparator_def by blast
  then show ?thesis by simp
qed

lemma consistent_trans:
  assumes c: "consistent_comparator cmp" and ab: "cmp a b \<le> 0" and bc: "cmp b c \<le> 0"
  shows "cmp a c \<le> 0"
proof (rule ccontr)
  assume "\<not> cmp a c \<le> 0"
  then have "cmp a c > 0" by simp
  with c have ca: "cmp c a < 0" unfolding consistent_comparator_def by blast
  from c have flip: "\<And>x y. cmp x y < 0 \<Longrightarrow> cmp y x > 0"
    and lt: "\<And>x y z. cmp x y < 0 \<Longrightarrow> cmp y z < 0 \<Longrightarrow> cmp x z < 0"
    and eq: "\<And>x y z. cmp x y = 0 \<Longrightarrow> cmp y z = 0 \<Longrightarrow> cmp x z = 0"
    unfolding consistent_comparator_def by blast+
  consider "cmp a b < 0" "cmp b c < 0" | "cmp a b < 0" "cmp b c = 0"
    | "cmp a b = 0" "cmp b c < 0" | "cmp a b = 0" "cmp b c = 0"
    using ab bc by linarith
  then show False
  proof cases
    case 1
    then have "cmp a c < 0" by (rule lt)
    with \<open>cmp a c > 0\<close> show False by simp
  next
    case 2
    from lt [OF ca 2(1)] have "cmp b c > 0" by (rule flip)
    with 2(2) show False by simp
  next
    case 3
    from lt [OF 3(2) ca] have "cmp a b > 0" by (rule flip)
    with 3(1) show False by simp
  next
    case 4
    then have "cmp a c = 0" by (rule eq)
    with \<open>cmp a c > 0\<close> show False by simp
  qed
qed

lemma sorted_insertSorted:
  assumes tot: "\<And>a b. \<not> cmp a b \<le> 0 \<Longrightarrow> cmp b a \<le> 0"
    and tr: "\<And>a b c. cmp a b \<le> 0 \<Longrightarrow> cmp b c \<le> 0 \<Longrightarrow> cmp a c \<le> 0"
    and s: "sorted_wrt (\<lambda>a b. cmp a b \<le> 0) ys"
  shows "sorted_wrt (\<lambda>a b. cmp a b \<le> 0) (insertSorted cmp x ys)"
  using s
proof (induction ys)
  case Nil
  then show ?case by simp
next
  case (Cons y ys)
  show ?case
  proof (cases "cmp x y \<le> 0")
    case True
    have "\<forall>z\<in>set ys. cmp x z \<le> 0"
      using Cons.prems True tr by auto
    with Cons.prems True show ?thesis by simp
  next
    case False
    then have "cmp y x \<le> 0" by (rule tot)
    with Cons False show ?thesis by (auto simp: set_insertSorted)
  qed
qed

lemma sorted_stableSort:
  assumes tot: "\<And>a b. \<not> cmp a b \<le> 0 \<Longrightarrow> cmp b a \<le> 0"
    and tr: "\<And>a b c. cmp a b \<le> 0 \<Longrightarrow> cmp b c \<le> 0 \<Longrightarrow> cmp a c \<le> 0"
  shows "sorted_wrt (\<lambda>a b. cmp a b \<le> 0) (stableSort cmp xs)"
proof (induction xs)
  case Nil
  then show ?case by simp
next
  case (Cons x xs)
  then show ?case using sorted_insertSorted [of cmp, OF tot tr] by simp
qed

lemma getLocalesForDropdown_eq:
  "getLocalesForDropdown lc h =
     (h @ [stableSort (\<lambda>a b. lc (englishName a) (englishName b)) (h ! 0)], length h)"
  by (simp add: getLocalesForDropdown_def array_spread_def array_sort_def SUPPORTED_LOCALES_ref_def)

lemma callDropdown_registry:
  "h \<noteq> [] \<Longrightarrow> callDropdown lc n h \<noteq> [] \<and> callDropdown lc n h ! 0 = h ! 0"
proof (induction n arbitrary: h)
  case 0
  then show ?case by simp
next
  case (Suc n)
  have "h @ [stableSort (\<lambda>a b. lc (englishName a) (englishName b)) (h ! 0)] \<noteq> []" by simp
  from Suc.IH [OF this] Suc.prems show ?case
    by (simp add: getLocalesForDropdown_eq nth_append)
qed

text \<open>The comparison of code units is a consistent comparator.\<close>

lemma codeUnitCompare_refl: "codeUnitCompare a a = 0"
  by (induction a) auto

lemma codeUnitCompare_eq: "codeUnitCompare a b = 0 \<longleftrightarrow> a = b"
  by (induction a b rule: codeUnitCompare.induct) auto

lemma codeUnitCompare_flip: "codeUnitCompare a b < 0 \<longleftrightarrow> codeUnitCompare b a > 0"
  by (induction a b rule: codeUnitCompare.induct) auto

lemma codeUnitCompare_less_trans:
  "codeUnitCompare a b < 0 \<Longrightarrow> codeUnitCompare b c < 0 \<Longrightarrow> codeUnitCompare a c < 0"
proof (induction a b arbitrary: c rule: codeUnitCompare.induct)
  case 1
  then show ?case by simp
next
  case (2 y ys)
  then show ?case by (cases c) auto
next
  case (3 x xs)
  then show ?case by simp
next
  case (4 x xs y ys)
  then show ?case by (cases c) (auto split: if_splits)
qed

lemma codeUnitCompare_consistent: "consistent_comparator codeUnitCompare"
  unfolding consistent_comparator_def
proof (intro conjI allI impI)
  fix a b c :: jsstring
  show "codeUnitCompare a a = 0" by (rule codeUnitCompare_refl)
  show "codeUnitCompare a b = 0 \<Longrightarrow> codeUnitCompare b a = 0"
    by (simp add: codeUnitCompare_eq)
  show "(codeUnitCompare a b < 0) = (0 < codeUnitCompare b a)" by (rule codeUnitCompare_flip)
  show "codeUnitCompare a b = 0 \<and> codeUnitCompare b c = 0 \<Longrightarrow> codeUnitCompare a c = 0"
    by (simp add: codeUnitCompare_eq)
  show "codeUnitCompare a b < 0 \<and> codeUnitCompare b c < 0 \<Longrightarrow> codeUnitCompare a c < 0"
    using codeUnitCompare_less_trans by blast
  show "0 < codeUnitCompare a b \<and> 0 < codeUnitCompare b c \<Longrightarrow> 0 < codeUnitCompare a c"
    using codeUnitCompare_less_trans [of c b a] by (simp add: codeUnitCompare_flip)
qed

lemma dropdown_codeUnit_order:
  "map code (stableSort (\<lambda>a b. codeUnitCompare (englishName a) (englishName b)) SUPPORTED_LOCALES) =
     [ascii ''en'', ascii ''fr'', ascii ''de'', ascii ''ja'', ascii ''ko'',
      ascii ''pt'', ascii ''ru'', ascii ''zh-CN'', ascii ''es'', ascii ''zh-TW'']"
  by (simp add: SUPPORTED_LOCALES_def mkLocale_def ascii_def)

text \<open>
  C4: when \<^verbatim>\<open>localeCompare\<close> is a consistent comparator, as the language requires of
  it, every call of \<^verbatim>\<open>getLocalesForDropdown\<close> returns an array that holds exactly the
  records of the registry (as a multiset) in ascending order of \<^verbatim>\<open>englishName\<close> under
  the comparison. The array returned is a new one, not the registry's; and after any
  number \<open>n\<close> of calls, and after one more, the registry array holds
  \<^verbatim>\<open>SUPPORTED_LOCALES\<close> with its contents and order, and the call leaves every array
  that existed before it as it was.
\<close>

theorem getLocalesForDropdown_sorted_copy:
  assumes "consistent_comparator localeCompare"
  shows "let h = callDropdown localeCompare n initial_store;
             result = getLocalesForDropdown localeCompare h;
             h' = fst result;
             listing = h' ! snd result
         in mset listing = mset SUPPORTED_LOCALES \<and>
            sorted_wrt (\<lambda>a b. localeCompare (englishName a) (englishName b) \<le> 0) listing \<and>
            snd result \<noteq> SUPPORTED_LOCALES_ref \<and>
            h ! SUPPORTED_LOCALES_ref = SUPPORTED_LOCALES \<and>
            h' ! SUPPORTED_LOCALES_ref = SUPPORTED_LOCALES \<and>
            take (length h) h' = h"
proof -
  define h where "h = callDropdown localeCompare n initial_store"
  define cmp :: "LocaleInfo \<Rightarrow> LocaleInfo \<Rightarrow> int"
    where "cmp = (\<lambda>a b. localeCompare (englishName a) (englishName b))"
  have reg: "h \<noteq> []" "h ! 0 = SUPPORTED_LOCALES"
    using callDropdown_registry [of initial_store localeCompare n]
    by (simp_all add: h_def initial_store_def)
  have res: "getLocalesForDropdown localeCompare h = (h @ [stableSort cmp (h ! 0)], length h)"
    by (simp add: getLocalesForDropdown_eq cmp_def)
  have tot: "\<And>a b. \<not> cmp a b \<le> 0 \<Longrightarrow> cmp b a \<le> 0"
    unfolding cmp_def using consistent_total [OF assms] by blast
  have tr: "\<And>a b c. cmp a b \<le> 0 \<Longrightarrow> cmp b c \<le> 0 \<Longrightarrow> cmp a c \<le> 0"
    unfolding cmp_def using consistent_trans [OF assms] by blast
  have sorted: "sorted_wrt (\<lambda>a b. cmp a b \<le> 0) (stableSort cmp SUPPORTED_LOCALES)"
    using tot tr by (rule sorted_stableSort)
  have perm: "mset (stableSort cmp SUPPORTED_LOCALES) = mset SUPPORTED_LOCALES"
    by (rule mset_stableSort)
  show ?thesis
    using reg sorted perm
    unfolding Let_def h_def [symmetric] res
    by (simp add: nth_append SUPPORTED_LOCALES_ref_def cmp_def)
qed

text \<open>
  The listing under the comparison of code units, after two earlier calls: the
  comparator is consistent, the third call returns the array at address 3, and the
  codes come out in the order of English, French, German, Japanese, Korean, Portuguese,
  Russian, Simplified Chinese, Spanish, Traditional Chinese.
\<close>

theorem getLocalesForDropdown_sorted_copy_witness:
  "consistent_comparator codeUnitCompare \<and>
   (let h = callDropdown codeUnitCompare 2 initial_store;
        result = getLocalesForDropdown codeUnitCompare h;
        h' = fst result;
        listing = h' ! snd result
    in mset listing = mset SUPPORTED_LOCALES \<and>
       sorted_wrt (\<lambda>a b. codeUnitCompare (englishName a) (englishName b) \<le> 0) listing \<and>
       snd result \<noteq> SUPPORTED_LOCALES_ref \<and>
       h ! SUPPORTED_LOCALES_ref = SUPPORTED_LOCALES \<and>
       h' ! SUPPORTED_LOCALES_ref = SUPPORTED_LOCALES \<and>
       take (length h) h' = h) \<and>
   snd (getLocalesForDropdown codeUnitCompare (callDropdown codeUnitCompare 2 initial_store)) = 3 \<and>
   map code (fst (getLocalesForDropdown codeUnitCompare initial_store)
      ! snd (getLocalesForDropdown codeUnitCompare initial_store)) =
     [ascii ''en'', ascii ''fr'', ascii ''de'', ascii ''ja'', ascii ''ko'',
      ascii ''pt'', ascii ''ru'', ascii ''zh-CN'', ascii ''es'', ascii ''zh-TW'']"
proof -
  have len: "snd (getLocalesForDropdown codeUnitCompare (callDropdown codeUnitCompare 2 initial_store)) = 3"
    by (simp add: getLocalesForDropdown_eq numeral_2_eq_2 initial_store_def)
  have order: "map code (fst (getLocalesForDropdown codeUnitCompare initial_store)
      ! snd (getLocalesForDropdown codeUnitCompare initial_store)) =
     [ascii ''en'', ascii ''fr'', ascii ''de'', ascii ''ja'', ascii ''ko'',
      ascii ''pt'', ascii ''ru'', ascii ''zh-CN'', ascii ''es'', ascii ''zh-TW'']"
    by (simp add: getLocalesForDropdown_eq initial_store_def dropdown_codeUnit_order)
  show ?thesis
    using codeUnitCompare_consistent
      getLocalesForDropdown_sorted_copy [OF codeUnitCompare_consistent, of 2] len order
    by blast
qed

text \<open>
  The copy matters: the same sort applied to the registry array itself would reorder
  it.
\<close>

lemma sort_without_copy_mutates:
  "fst (array_sort (\<lambda>a b. codeUnitCompare (englishName a) (englishName b)) initial_store
      SUPPORTED_LOCALES_ref) ! SUPPORTED_LOCALES_ref \<noteq> SUPPORTED_LOCALES"
proof
  assume "fst (array_sort (\<lambda>a b. codeUnitCompare (englishName a) (englishName b)) initial_store
      SUPPORTED_LOCALES_ref) ! SUPPORTED_LOCALES_ref = SUPPORTED_LOCALES"
  then have "stableSort (\<lambda>a b. codeUnitCompare (englishName a) (englishName b)) SUPPORTED_LOCALES
      = SUPPORTED_LOCALES"
    by (simp add: array_sort_def initial_store_def SUPPORTED_LOCALES_ref_def)
  then have "map code (stableSort (\<lambda>a b. codeUnitCompare (englishName a) (englishName b))
      SUPPORTED_LOCALES) = map code SUPPORTED_LOCALES"
    by simp
  then show False
    unfolding dropdown_codeUnit_order codes_SUPPORTED_LOCALES by (simp add: ascii_inj)
qed

section \<open>Font families\<close>

lemma fontMap_keys: "map fst fontMap = map code SUPPORTED_LOCALES"
  by (simp add: fontMap_def codes_SUPPORTED_LOCALES)

lemma sansStack_nonempty: "sansStack \<noteq> []"
  by (simp add: sansStack_def ascii_def)

lemma fontMap_values_nonempty: "map_of fontMap c = Some v \<Longrightarrow> v \<noteq> []"
proof -
  assume "map_of fontMap c = Some v"
  then have "(c, v) \<in> set fontMap" by (rule map_of_SomeD)
  then show "v \<noteq> []"
    using sansStack_nonempty by (auto simp: fontMap_def cjkStack_def quoted_def)
qed

lemma fontMap_en: "getProperty fontMap (ascii ''en'') = JString sansStack"
  by (simp add: getProperty_def fontMap_def)

lemma getFontFamily_default: "getFontFamily DEFAULT_LOCALE = JString sansStack"
  by (simp add: getFontFamily_def DEFAULT_LOCALE_def fontMap_en sansStack_nonempty)

lemma getFontFamily_cases:
  "getFontFamily c =
    (case map_of fontMap c of
       Some v \<Rightarrow> JString v
     | None \<Rightarrow> if c \<in> set Object_prototype_keys then JBuiltin c else JString sansStack)"
  unfolding getFontFamily_def fontMap_en Let_def
  by (auto simp: getProperty_def dest: fontMap_values_nonempty split: option.splits)

text \<open>
  What holds of \<^verbatim>\<open>getFontFamily\<close> on every argument: it never returns
  \<^verbatim>\<open>undefined\<close> or an empty string; for every code with an entry in the font table,
  which every code of the registry has, it returns that entry, and the entry of
  \<^verbatim>\<open>'zh-CN'\<close> contains \<^verbatim>\<open>"PingFang SC"\<close>; and the fallback to the default locale
  is taken for every code that is neither a key of the font table nor the name of a
  property that the table inherits from \<^verbatim>\<open>Object.prototype\<close>.
\<close>

lemma getFontFamily_fallback:
  "getFontFamily c \<noteq> JUndefined \<and> getFontFamily c \<noteq> JString [] \<and>
   (\<forall>v. map_of fontMap c = Some v \<longrightarrow> getFontFamily c = JString v) \<and>
   (isValidLocaleCode c \<longrightarrow> (\<exists>v. map_of fontMap c = Some v \<and> getFontFamily c = JString v)) \<and>
   (\<exists>before after.
      getFontFamily (ascii ''zh-CN'') = JString (before @ quoted ''PingFang SC'' @ after)) \<and>
   (c \<notin> set (map fst fontMap) \<and> c \<notin> set Object_prototype_keys \<longrightarrow>
      getFontFamily c = getFontFamily DEFAULT_LOCALE)"
proof -
  have defined: "getFontFamily c \<noteq> JUndefined \<and> getFontFamily c \<noteq> JString []"
    using sansStack_nonempty
    by (auto simp: getFontFamily_cases dest: fontMap_values_nonempty split: option.splits)
  have entry: "\<forall>v. map_of fontMap c = Some v \<longrightarrow> getFontFamily c = JString v"
    by (simp add: getFontFamily_cases)
  have valid: "isValidLocaleCode c \<longrightarrow> (\<exists>v. map_of fontMap c = Some v \<and> getFontFamily c = JString v)"
  proof
    assume "isValidLocaleCode c"
    then have "c \<in> set (map fst fontMap)" by (simp add: isValidLocaleCode_iff fontMap_keys del: set_map)
    then have "map_of fontMap c \<noteq> None" by (simp add: map_of_eq_None_iff)
    then show "\<exists>v. map_of fontMap c = Some v \<and> getFontFamily c = JString v"
      using entry by blast
  qed
  have "getFontFamily (ascii ''zh-CN'') =
      JString (ascii ''system-ui, -apple-system, '' @ quoted ''Microsoft YaHei'' @ ascii '', ''
        @ quoted ''PingFang SC'' @ ascii '', sans-serif'')"
    by (simp add: getFontFamily_cases fontMap_def cjkStack_def ascii_inj)
  then have "getFontFamily (ascii ''zh-CN'') =
      JString ((ascii ''system-ui, -apple-system, '' @ quoted ''Microsoft YaHei'' @ ascii '', '')
        @ quoted ''PingFang SC'' @ ascii '', sans-serif'')"
    by simp
  then have pingfang: "\<exists>before after.
      getFontFamily (ascii ''zh-CN'') = JString (before @ quoted ''PingFang SC'' @ after)"
    by blast
  have unknown: "c \<notin> set (map fst fontMap) \<and> c \<notin> set Object_prototype_keys \<longrightarrow>
      getFontFamily c = getFontFamily DEFAULT_LOCALE"
  proof
    assume a: "c \<notin> set (map fst fontMap) \<and> c \<notin> set Object_prototype_keys"
    then have "map_of fontMap c = None" by (simp add: map_of_eq_None_iff)
    with a show "getFontFamily c = getFontFamily DEFAULT_LOCALE"
      unfolding getFontFamily_default by (simp add: getFontFamily_cases)
  qed
  show ?thesis using defined entry valid pingfang unknown by blast
qed

text \<open>
  The fallback at \<^verbatim>\<open>'xx-unknown'\<close>, which is no key of the table and no inherited
  name, and the entry of the registry code \<^verbatim>\<open>'ja'\<close>.
\<close>

lemma getFontFamily_fallback_example:
  "ascii ''xx-unknown'' \<notin> set (map fst fontMap) \<and>
   ascii ''xx-unknown'' \<notin> set Object_prototype_keys \<and>
   getFontFamily (ascii ''xx-unknown'') = getFontFamily DEFAULT_LOCALE \<and>
   isValidLocaleCode (ascii ''ja'') \<and>
   map_of fontMap (ascii ''ja'') = Some (cjkStack ''Hiragino Sans'' ''Yu Gothic'') \<and>
   getFontFamily (ascii ''ja'') = JString (cjkStack ''Hiragino Sans'' ''Yu Gothic'')"
proof -
  have h: "ascii ''xx-unknown'' \<notin> set (map fst fontMap)"
    "ascii ''xx-unknown'' \<notin> set Object_prototype_keys"
    by (simp_all add: fontMap_def Object_prototype_keys_def ascii_inj)
  have ja: "isValidLocaleCode (ascii ''ja'')"
    "map_of fontMap (ascii ''ja'') = Some (cjkStack ''Hiragino Sans'' ''Yu Gothic'')"
    by (simp_all add: isValidLocaleCode_iff codes_SUPPORTED_LOCALES fontMap_def ascii_inj)
  show ?thesis
    using h ja getFontFamily_fallback [of "ascii ''xx-unknown''"]
      getFontFamily_fallback [of "ascii ''ja''"]
    by blast
qed

text \<open>
  C6, evaluated on the code. The claim is that \<^verbatim>\<open>getFontFamily\<close> returns, for every
  unknown or unmapped code, exactly the value it returns for the default locale. The
  fallback \<^verbatim>\<open>|| fontMap['en']\<close> does that for \<^verbatim>\<open>'xx-unknown'\<close>. It misses
  \<^verbatim>\<open>'toString'\<close>, which is no code of the registry and no key of the font table:
  \<^verbatim>\<open>fontMap['toString']\<close> is the function inherited from \<^verbatim>\<open>Object.prototype\<close>,
  which is truthy, so the function declared to return a string returns that built-in
  and not the font stack of the default locale.
\<close>

theorem getFontFamily_inherited_property:
  "\<not> isValidLocaleCode (ascii ''toString'') \<and>
   ascii ''toString'' \<notin> set (map fst fontMap) \<and>
   getFontFamily (ascii ''toString'') = JBuiltin (ascii ''toString'') \<and>
   getFontFamily DEFAULT_LOCALE = JString sansStack \<and>
   getFontFamily (ascii ''toString'') \<noteq> getFontFamily DEFAULT_LOCALE \<and>
   \<not> isValidLocaleCode (ascii ''xx-unknown'') \<and>
   getFontFamily (ascii ''xx-unknown'') = getFontFamily DEFAULT_LOCALE"
proof -
  have a: "\<not> isValidLocaleCode (ascii ''toString'')"
    "\<not> isValidLocaleCode (ascii ''xx-unknown'')"
    by (simp_all add: isValidLocaleCode_iff codes_SUPPORTED_LOCALES ascii_inj)
  have b: "ascii ''toString'' \<notin> set (map fst fontMap)"
    by (simp add: fontMap_def ascii_inj)
  have c: "getFontFamily (ascii ''toString'') = JBuiltin (ascii ''toString'')"
    by (simp add: getFontFamily_cases fontMap_def Object_prototype_keys_def ascii_inj)
  have d: "getFontFamily (ascii ''xx-unknown'') = JString sansStack"
    by (simp add: getFontFamily_cases fontMap_def Object_prototype_keys_def ascii_inj)
  show ?thesis using a b c d by (simp add: getFontFamily_default)
qed

end
